theory Spec2Isabelle
  imports Main "HOL-Library.AList"
begin

section \<open>Values, requests and outcomes\<close>

text \<open>
  The interceptor handles values of TypeScript type \<open>InvocationResult\<close> (that is,
  \<open>any\<close>). Its hit test \<open>if (cachedResult)\<close> is JavaScript truthiness, so the
  model keeps the shapes of value that truthiness distinguishes. Numbers are integers
  plus \<open>NaN\<close>; an object is its list of properties and is always truthy.
\<close>

datatype jsval =
    JUndefined
  | JNull
  | JBool bool
  | JNum int
  | JNaN
  | JStr string
  | JObj "(string \<times> jsval) list"

fun truthy :: "jsval \<Rightarrow> bool" where
  "truthy JUndefined = False"
| "truthy JNull = False"
| "truthy (JBool b) = b"
| "truthy (JNum n) = (n \<noteq> 0)"
| "truthy JNaN = False"
| "truthy (JStr s) = (s \<noteq> [])"
| "truthy (JObj ps) = True"

text \<open>
  The HTTP request as the interceptor reads it: \<open>httpReq.path\<close> and
  \<open>httpReq.headers\<close> (Node lower-cases header names; a header that was not sent is
  \<open>undefined\<close>, here \<open>None\<close> of \<open>map_of\<close>).
\<close>

record Request =
  path :: string
  headers :: "(string \<times> string) list"

text \<open>
  \<open>invocationCtx.get(RestBindings.Http.REQUEST, {optional: true})\<close> yields the bound
  request, or \<open>undefined\<close> when none is bound.
\<close>

record InvocationContext =
  httpRequest :: "Request option"

text \<open>
  A rejected promise carries the thrown value. \<open>TypeError\<close> is what JavaScript raises
  on reading a property of \<open>undefined\<close>.
\<close>

datatype error = Thrown jsval | TypeError

text \<open>
  The continuation \<open>next\<close> and the interceptor run against one program state \<open>'s\<close>
  (the cache, the clock, whatever the handler touches): each takes the state and returns
  its outcome, \<open>Inl\<close> a failure and \<open>Inr\<close> a result, with the state it leaves.
\<close>

type_synonym 's invocation = "'s \<Rightarrow> (error + jsval) \<times> 's"

text \<open>
  The injected \<open>CachingService\<close> (\<open>@inject(CACHING_SERVICE)\<close>), as the interceptor
  uses it: \<open>get(key)\<close> and \<open>set(key, value)\<close>. The class itself
  (\<open>services/caching.service.ts\<close>) is not among the sources, so the interceptor takes
  the service as a parameter; the fields are named \<open>get_cached\<close> and \<open>set_cached\<close>
  because \<open>set\<close> is taken.
\<close>

record 's CachingService =
  get_cached :: "string \<Rightarrow> 's \<Rightarrow> jsval \<times> 's"
  set_cached :: "string \<Rightarrow> jsval \<Rightarrow> 's \<Rightarrow> 's"

section \<open>The caching interceptor\<close>

text \<open>
  \<open>CachingInterceptor.intercept\<close> of \<open>greeting-app\<close>
  (\<open>src/interceptors/caching.interceptor.ts\<close>, printed in the README as well):
  \<^verbatim>\<open>
    const EXCLUDED_PATHS = ['/explorer/', '/explorer/openapi.json'];
    const httpReq = await invocationCtx.get(RestBindings.Http.REQUEST, {optional: true});
    if (!httpReq || EXCLUDED_PATHS.includes(httpReq.path)) {
      return next();
    }
    const key = httpReq.path;
    const lang = httpReq.headers['accept-language'] || 'en';
    const cachingKey = `${lang}:${key}`;
    const cachedResult = await this.cachingService.get(cachingKey);
    if (cachedResult) {
      console.error('Cache found for %s %j', cachingKey, cachedResult);
      return cachedResult;
    }
    const result = await next();
    await this.cachingService.set(cachingKey, result);
    return result;
  \<close>
  The log line is not modelled. \<open>await next()\<close> rethrows a failure of the handler, which
  leaves the function before \<open>set\<close>.
\<close>

definition EXCLUDED_PATHS :: "string list" where
  "EXCLUDED_PATHS = [''/explorer/'', ''/explorer/openapi.json'']"

definition lang :: "Request \<Rightarrow> string" where
  "lang httpReq =
     (case map_of (headers httpReq) ''accept-language'' of
        None \<Rightarrow> ''en''
      | Some h \<Rightarrow> if h = [] then ''en'' else h)"

definition cachingKey :: "Request \<Rightarrow> string" where
  "cachingKey httpReq = lang httpReq @ '':'' @ path httpReq"

definition intercept ::
  "'s CachingService \<Rightarrow> InvocationContext \<Rightarrow> 's invocation \<Rightarrow> 's invocation" where
  "intercept cachingService invocationCtx next s =
     (case httpRequest invocationCtx of
        None \<Rightarrow> next s
      | Some httpReq \<Rightarrow>
          if path httpReq \<in> set EXCLUDED_PATHS then next s
          else
            (case get_cached cachingService (cachingKey httpReq) s of
               (cachedResult, s1) \<Rightarrow>
                 if truthy cachedResult then (Inr cachedResult, s1)
                 else
                   (case next s1 of
                      (Inl e, s2) \<Rightarrow> (Inl e, s2)
                    | (Inr result, s2) \<Rightarrow>
                        (Inr result, set_cached cachingService (cachingKey httpReq) result s2))))"

text \<open>
  The tutorial text of the unnamed README (\<open>part_002\<close>) prints an earlier form of the
  same function:
  \<^verbatim>\<open>
    if (EXCLUDED_PATHS.includes(httpReq.path)) {
      return next();
    }
    const key = httpReq.path;
    const lang = httpReq.acceptsLanguages(['en', 'zh', 'fr']) || 'en';
  \<close>
  and then continues as above. It reads \<open>httpReq.path\<close> without the \<open>!httpReq\<close>
  test, and asks Express for the language: \<open>acceptsLanguages\<close> belongs to the
  framework and is a parameter here (the best match among the offered tags, or
  \<open>false\<close>, here \<open>None\<close>). The README of \<open>greeter\<close> prints a still earlier
  form, with the \<open>!httpReq\<close> test, no excluded paths and the tags \<open>en\<close> and
  \<open>zh\<close>; it is not modelled.
\<close>

definition intercept_part_002 ::
  "(Request \<Rightarrow> string list \<Rightarrow> string option) \<Rightarrow> 's CachingService \<Rightarrow>
     InvocationContext \<Rightarrow> 's invocation \<Rightarrow> 's invocation" where
  "intercept_part_002 acceptsLanguages cachingService invocationCtx next s =
     (case httpRequest invocationCtx of
        None \<Rightarrow> (Inl TypeError, s)
      | Some httpReq \<Rightarrow>
          if path httpReq \<in> set EXCLUDED_PATHS then next s
          else
            (let key = path httpReq;
                 lang = (case acceptsLanguages httpReq [''en'', ''zh'', ''fr''] of
                           None \<Rightarrow> ''en''
                         | Some l \<Rightarrow> if l = [] then ''en'' else l);
                 cachingKey = lang @ '':'' @ key
             in case get_cached cachingService cachingKey s of
               (cachedResult, s1) \<Rightarrow>
                 if truthy cachedResult then (Inr cachedResult, s1)
                 else
                   (case next s1 of
                      (Inl e, s2) \<Rightarrow> (Inl e, s2)
                    | (Inr result, s2) \<Rightarrow>
                        (Inr result, set_cached cachingService cachingKey result s2))))"

section \<open>The cache store\<close>

text \<open>
  Modelled from the spec: the class \<open>CachingService\<close> of
  \<open>src/services/caching.service.ts\<close> is imported by the interceptor, the observer and
  the binding key, but the file is not among the sources. The definitions of this
  section follow sections 3 and 4.1 of the specification word by word.

  A \<open>CacheEntry\<close> has a value, \<open>createdAt\<close> and \<open>expiresAt = createdAt + TTL\<close>;
  its key is the key it is stored under. The store owns the mapping from key to entry
  and the TTL, fixed for the whole store. Times are milliseconds. The mapping is kept
  as an association list in insertion order, as a JavaScript \<open>Map\<close> keeps it.
\<close>

record CacheEntry =
  entryValue :: jsval
  createdAt :: int
  expiresAt :: int

record CacheStore =
  ttl :: int
  entries :: "(string \<times> CacheEntry) list"

text \<open>Modelled from the spec: an entry is live iff \<open>now < expiresAt\<close>.\<close>

definition live :: "int \<Rightarrow> CacheEntry \<Rightarrow> bool" where
  "live now e \<longleftrightarrow> now < expiresAt e"

text \<open>
  Modelled from the spec: \<open>get(key) -> value | miss\<close>. "If absent, or present but
  \<open>now >= expiresAt\<close>, returns miss (and MUST remove the stale entry as a side
  effect). Otherwise returns the stored value unchanged." Miss is \<open>None\<close>.
\<close>

definition get :: "string \<Rightarrow> int \<Rightarrow> CacheStore \<Rightarrow> jsval option \<times> CacheStore" where
  "get key now st =
     (case map_of (entries st) key of
        None \<Rightarrow> (None, st)
      | Some e \<Rightarrow>
          if now \<ge> expiresAt e
          then (None, st\<lparr>entries := AList.delete key (entries st)\<rparr>)
          else (Some (entryValue e), st))"

text \<open>
  Modelled from the spec: \<open>set(key, value)\<close> "inserts or replaces the entry for key
  with \<open>createdAt = now\<close>, \<open>expiresAt = now + TTL\<close>, value as given".
\<close>

definition set_entry :: "string \<Rightarrow> jsval \<Rightarrow> int \<Rightarrow> CacheStore \<Rightarrow> CacheStore" where
  "set_entry key v now st =
     st\<lparr>entries :=
          AList.update key \<lparr>entryValue = v, createdAt = now, expiresAt = now + ttl st\<rparr>
            (entries st)\<rparr>"

text \<open>
  Modelled from the spec: \<open>sweepOnce() -> removedKeys\<close> "synchronously scans all
  entries, removes every entry with \<open>now >= expiresAt\<close>, and returns the set of
  removed keys".
\<close>

definition sweepOnce :: "int \<Rightarrow> CacheStore \<Rightarrow> string list \<times> CacheStore" where
  "sweepOnce now st =
     (map fst (filter (\<lambda>(k, e). now \<ge> expiresAt e) (entries st)),
      st\<lparr>entries := filter (\<lambda>(k, e). \<not> now \<ge> expiresAt e) (entries st)\<rparr>)"

section \<open>The application: store, clock and handler\<close>

text \<open>
  Modelled from the spec: the object bound under \<open>CACHING_SERVICE\<close>, whose class is
  not among the sources. The running application holds one store and reads one clock;
  the service's \<open>get\<close> and \<open>set\<close> are the store's at the current time. The
  specification gives them no error outcome. A miss reaches the interceptor as
  \<open>undefined\<close>, which its hit test takes for "no cached result".
\<close>

record System =
  clock :: int
  cache :: CacheStore

definition cachingService :: "System CachingService" where
  "cachingService =
     \<lparr>get_cached = (\<lambda>key s.
        case get key (clock s) (cache s) of
          (r, c) \<Rightarrow> ((case r of None \<Rightarrow> JUndefined | Some v \<Rightarrow> v), s\<lparr>cache := c\<rparr>)),
      set_cached = (\<lambda>key v s. s\<lparr>cache := set_entry key v (clock s) (cache s)\<rparr>)\<rparr>"

definition advance :: "int \<Rightarrow> System \<Rightarrow> System" where
  "advance d s = s\<lparr>clock := clock s + d\<rparr>"

text \<open>
  \<open>GreetingController.greet\<close>:
  \<^verbatim>\<open>
    const greeting = await this.greetingService.greet(language, name);
    return {timestamp: new Date(), language, greeting};
  \<close>
  The greeting service is an external package; its answer is the parameter
  \<open>greeting\<close>.
\<close>

definition greet :: "string \<Rightarrow> string \<Rightarrow> System invocation" where
  "greet greeting language s =
     (Inr (JObj [(''timestamp'', JNum (clock s)),
                 (''language'', JStr language),
                 (''greeting'', JStr greeting)]), s)"

definition failing :: "error \<Rightarrow> 's invocation" where
  "failing e s = (Inl e, s)"

section \<open>A recording service\<close>

text \<open>
  To state which calls the interceptor makes on the service, a service that does
  nothing but append each call to a log, answering every \<open>get\<close> from a fixed table.
\<close>

datatype cache_call = GetCall string | SetCall string jsval

definition recordingService :: "(string \<Rightarrow> jsval) \<Rightarrow> (cache_call list \<times> 'w) CachingService" where
  "recordingService answer =
     \<lparr>get_cached = (\<lambda>key (calls, w). (answer key, (calls @ [GetCall key], w))),
      set_cached = (\<lambda>key v (calls, w). (calls @ [SetCall key v], w))\<rparr>"

definition beside_log :: "'w invocation \<Rightarrow> (cache_call list \<times> 'w) invocation" where
  "beside_log next = (\<lambda>(calls, w). case next w of (r, w') \<Rightarrow> (r, (calls, w')))"

section \<open>Concrete inputs\<close>

text \<open>
  The requests, stores and handlers at which the theorems below are evaluated: the
  README's \<open>GET /greet/loopback\<close>, a store with the default TTL of 10 000 ms, and a
  server that boots at clock 1000.
\<close>

definition greetRequest :: "string \<Rightarrow> Request" where
  "greetRequest l = \<lparr>path = ''/greet/loopback'', headers = [(''accept-language'', l)]\<rparr>"

definition plainRequest :: Request where
  "plainRequest = \<lparr>path = ''/greet/loopback'', headers = []\<rparr>"

definition explorerRequest :: Request where
  "explorerRequest = \<lparr>path = ''/explorer/'', headers = [(''accept-language'', ''en'')]\<rparr>"

definition greetCtx :: "string \<Rightarrow> InvocationContext" where
  "greetCtx l = \<lparr>httpRequest = Some (greetRequest l)\<rparr>"

definition emptyStore :: CacheStore where
  "emptyStore = \<lparr>ttl = 10000, entries = []\<rparr>"

definition boot :: System where
  "boot = \<lparr>clock = 1000, cache = emptyStore\<rparr>"

definition hello :: "System invocation" where
  "hello = greet ''Hello, loopback!'' ''en''"

definition helloAt :: "int \<Rightarrow> jsval" where
  "helloAt t = JObj [(''timestamp'', JNum t), (''language'', JStr ''en''),
                     (''greeting'', JStr ''Hello, loopback!'')]"

definition boom :: error where
  "boom = Thrown (JStr ''boom'')"

text \<open>
  \<open>holding key v now\<close>: the application at clock \<open>now\<close> whose store holds \<open>v\<close>
  under \<open>key\<close>, stored at clock 1000.
\<close>

definition storedAt1000 :: "jsval \<Rightarrow> CacheEntry" where
  "storedAt1000 v = \<lparr>entryValue = v, createdAt = 1000, expiresAt = 11000\<rparr>"

definition holding :: "string \<Rightarrow> jsval \<Rightarrow> int \<Rightarrow> System" where
  "holding key v now =
     \<lparr>clock = now, cache = \<lparr>ttl = 10000, entries = [(key, storedAt1000 v)]\<rparr>\<rparr>"

definition twoEntries :: CacheStore where
  "twoEntries =
     \<lparr>ttl = 10000,
      entries = [(''en:/greet/loopback'', storedAt1000 (helloAt 1000)),
                 (''zh:/greet/loopback'',
                  \<lparr>entryValue = JStr ''ni hao'', createdAt = 5000, expiresAt = 15000\<rparr>)]\<rparr>"

section \<open>Facts about the model\<close>

lemmas input_defs =
  greetRequest_def plainRequest_def explorerRequest_def greetCtx_def emptyStore_def boot_def
  hello_def helloAt_def boom_def storedAt1000_def holding_def twoEntries_def

lemmas run_defs =
  intercept_def cachingService_def get_def set_entry_def greet_def failing_def advance_def
  lang_def cachingKey_def EXCLUDED_PATHS_def live_def recordingService_def beside_log_def

lemma intercept_cached:
  assumes "httpRequest ctx = Some r" and "path r \<notin> set EXCLUDED_PATHS"
  shows "intercept svc ctx next s =
     (case get_cached svc (cachingKey r) s of
        (c, s1) \<Rightarrow>
          if truthy c then (Inr c, s1)
          else (case next s1 of
                  (Inl e, s2) \<Rightarrow> (Inl e, s2)
                | (Inr v, s2) \<Rightarrow> (Inr v, set_cached svc (cachingKey r) v s2)))"
  using assms by (simp add: intercept_def)

lemma get_cached_cachingService:
  "get_cached cachingService k s =
     ((case fst (get k (clock s) (cache s)) of None \<Rightarrow> JUndefined | Some v \<Rightarrow> v),
      s\<lparr>cache := snd (get k (clock s) (cache s))\<rparr>)"
  by (simp add: cachingService_def split: prod.splits)

lemma set_cached_cachingService:
  "set_cached cachingService k v s = s\<lparr>cache := set_entry k v (clock s) (cache s)\<rparr>"
  by (simp add: cachingService_def)

lemma get_live:
  "map_of (entries st) k = Some e \<Longrightarrow> live now e \<Longrightarrow> get k now st = (Some (entryValue e), st)"
  by (simp add: get_def live_def)

lemma fst_get:
  "fst (get k now st) =
     (case map_of (entries st) k of
        None \<Rightarrow> None
      | Some e \<Rightarrow> if live now e then Some (entryValue e) else None)"
  by (simp add: get_def live_def split: option.splits)

lemma snd_get:
  "snd (get k now st) =
     (case map_of (entries st) k of
        None \<Rightarrow> st
      | Some e \<Rightarrow> if live now e then st else st\<lparr>entries := AList.delete k (entries st)\<rparr>)"
  by (simp add: get_def live_def split: option.splits)

lemma map_of_set_entry:
  "map_of (entries (set_entry k v now st)) =
     (map_of (entries st))(k \<mapsto> \<lparr>entryValue = v, createdAt = now, expiresAt = now + ttl st\<rparr>)"
  by (simp add: set_entry_def update_conv')

text \<open>
  The states of the concrete runs are reached by the interceptor itself: the first
  request after boot stores its result, a handler that returns \<open>0\<close> gets \<open>0\<close>
  stored, and time passing moves only the clock.
\<close>

lemma first_request_stores:
  "intercept cachingService (greetCtx ''en'') hello boot =
     (Inr (helloAt 1000), holding ''en:/greet/loopback'' (helloAt 1000) 1000)"
  by (simp add: input_defs run_defs)

lemma zero_result_stored:
  "intercept cachingService (greetCtx ''en'') (\<lambda>s. (Inr (JNum 0), s)) boot =
     (Inr (JNum 0), holding ''en:/greet/loopback'' (JNum 0) 1000)"
  by (simp add: input_defs run_defs)

lemma advance_holding:
  "advance d (holding k v now) = holding k v (now + d)"
  by (simp add: advance_def holding_def)

text \<open>
  The tutorial's earlier form fails where no request is bound: it reads
  \<open>httpReq.path\<close> of \<open>undefined\<close>.
\<close>

lemma intercept_part_002_no_request:
  "httpRequest invocationCtx = None \<Longrightarrow>
     intercept_part_002 acceptsLanguages svc invocationCtx next s = (Inl TypeError, s)"
  by (simp add: intercept_part_002_def)

section \<open>The interceptor\<close>

text \<open>
  Claim C10. Where no HTTP request is bound to the invocation context, the interceptor
  invokes \<open>next\<close> and returns its outcome, and the cache service is neither read nor
  written: the outcome is that of \<open>next\<close> whatever the service is, and a service
  that records its calls records none.
\<close>

theorem no_request_bypasses_cache:
  "httpRequest ctx = None \<Longrightarrow>
     intercept svc ctx nxt s = nxt s \<and>
     intercept (recordingService answer) ctx (beside_log handler) (calls, w) =
       (fst (handler w), (calls, snd (handler w)))"
  by (simp add: intercept_def beside_log_def split: prod.splits)

theorem no_request_bypasses_cache_witness:
  "httpRequest \<lparr>httpRequest = None\<rparr> = None \<and>
   intercept cachingService \<lparr>httpRequest = None\<rparr> hello (holding ''en:/greet/loopback'' (JNum 7) 2000) =
     (Inr (helloAt 2000), holding ''en:/greet/loopback'' (JNum 7) 2000) \<and>
   intercept (recordingService (\<lambda>k. JNum 7)) \<lparr>httpRequest = None\<rparr> (beside_log hello) ([], boot) =
     (Inr (helloAt 1000), ([], boot))"
proof -
  have h: "httpRequest \<lparr>httpRequest = None\<rparr> = None" by simp
  have run: "hello (holding ''en:/greet/loopback'' (JNum 7) 2000) = (Inr (helloAt 2000), holding ''en:/greet/loopback'' (JNum 7) 2000)"
    "hello boot = (Inr (helloAt 1000), boot)"
    by (simp_all add: input_defs greet_def)
  from no_request_bypasses_cache [OF h, where svc = cachingService and nxt = hello
      and s = "holding ''en:/greet/loopback'' (JNum 7) 2000"
      and answer = "\<lambda>k. JNum 7" and handler = hello and calls = "[]" and w = boot]
  show ?thesis using h run by simp
qed

text \<open>
  Claim C3. For a request whose path is one of the excluded paths, the interceptor
  calls straight through to \<open>next\<close> and returns its outcome unmodified; the cache
  service is neither read nor written, whatever it holds. The excluded paths are exactly
  \<open>/explorer/\<close> and \<open>/explorer/openapi.json\<close>.
\<close>

theorem excluded_path_bypasses_cache:
  "httpRequest ctx = Some r \<Longrightarrow> path r \<in> set EXCLUDED_PATHS \<Longrightarrow>
     intercept svc ctx nxt s = nxt s \<and>
     intercept (recordingService answer) ctx (beside_log handler) (calls, w) =
       (fst (handler w), (calls, snd (handler w))) \<and>
     set EXCLUDED_PATHS = {''/explorer/'', ''/explorer/openapi.json''}"
  by (simp add: intercept_def beside_log_def EXCLUDED_PATHS_def split: prod.splits)

theorem excluded_path_bypasses_cache_witness:
  "httpRequest \<lparr>httpRequest = Some explorerRequest\<rparr> = Some explorerRequest \<and>
   path explorerRequest \<in> set EXCLUDED_PATHS \<and>
   cachingKey explorerRequest = ''en:/explorer/'' \<and>
   intercept cachingService \<lparr>httpRequest = Some explorerRequest\<rparr> hello
       (holding ''en:/explorer/'' (JStr ''cached'') 2000) =
     (Inr (helloAt 2000), holding ''en:/explorer/'' (JStr ''cached'') 2000) \<and>
   intercept (recordingService (\<lambda>k. JStr ''cached'')) \<lparr>httpRequest = Some explorerRequest\<rparr>
       (beside_log hello) ([], boot) =
     (Inr (helloAt 1000), ([], boot))"
proof -
  have h: "httpRequest \<lparr>httpRequest = Some explorerRequest\<rparr> = Some explorerRequest" by simp
  have p: "path explorerRequest \<in> set EXCLUDED_PATHS"
    by (simp add: explorerRequest_def EXCLUDED_PATHS_def)
  have k: "cachingKey explorerRequest = ''en:/explorer/''"
    by (simp add: explorerRequest_def cachingKey_def lang_def)
  have run: "hello boot = (Inr (helloAt 1000), boot)"
    "hello (holding ''en:/explorer/'' (JStr ''cached'') 2000) =
       (Inr (helloAt 2000), holding ''en:/explorer/'' (JStr ''cached'') 2000)"
    by (simp_all add: input_defs greet_def)
  from excluded_path_bypasses_cache [OF h p, where svc = cachingService and nxt = hello
      and s = "holding ''en:/explorer/'' (JStr ''cached'') 2000"
      and answer = "\<lambda>k. JStr ''cached''" and handler = hello and calls = "[]" and w = boot]
  show ?thesis using h p k run by simp
qed

text \<open>
  Claim C4. For a request that is not excluded, the key of the lookup and of the store
  is the language tag, a colon and the request path, nothing else: the calls a recording
  service sees are \<open>get\<close> with that key and, after a miss and a successful handler,
  \<open>set\<close> with the same key. Two requests with the same path and different language
  tags have different keys, and storing under one does not change what a lookup under
  the other returns.
\<close>

theorem cachingKey_is_lang_colon_path:
  assumes "httpRequest ctx = Some r" and "path r \<notin> set EXCLUDED_PATHS"
  shows "cachingKey r = lang r @ '':'' @ path r \<and>
     fst (snd (intercept (recordingService answer) ctx (beside_log handler) ([], w))) =
       (if truthy (answer (lang r @ '':'' @ path r)) then [GetCall (lang r @ '':'' @ path r)]
        else case fst (handler w) of
               Inl e \<Rightarrow> [GetCall (lang r @ '':'' @ path r)]
             | Inr v \<Rightarrow> [GetCall (lang r @ '':'' @ path r), SetCall (lang r @ '':'' @ path r) v]) \<and>
     (\<forall>r'. path r' = path r \<and> lang r' \<noteq> lang r \<longrightarrow>
        cachingKey r' \<noteq> cachingKey r \<and>
        fst (get (cachingKey r') now (set_entry (cachingKey r) v t st)) =
          fst (get (cachingKey r') now st))"
proof -
  have key: "cachingKey r = lang r @ '':'' @ path r"
    by (simp add: cachingKey_def)
  have calls: "fst (snd (intercept (recordingService answer) ctx (beside_log handler) ([], w))) =
       (if truthy (answer (lang r @ '':'' @ path r)) then [GetCall (lang r @ '':'' @ path r)]
        else case fst (handler w) of
               Inl e \<Rightarrow> [GetCall (lang r @ '':'' @ path r)]
             | Inr v \<Rightarrow> [GetCall (lang r @ '':'' @ path r), SetCall (lang r @ '':'' @ path r) v])"
    using assms
    by (simp add: intercept_cached key recordingService_def beside_log_def
             split: prod.splits sum.splits)
  have apart: "cachingKey r' \<noteq> cachingKey r \<and>
        fst (get (cachingKey r') now (set_entry (cachingKey r) v t st)) =
          fst (get (cachingKey r') now st)"
    if "path r' = path r \<and> lang r' \<noteq> lang r" for r'
  proof -
    from that have ne: "cachingKey r' \<noteq> cachingKey r"
      by (simp add: cachingKey_def)
    then show ?thesis
      by (simp add: fst_get map_of_set_entry)
  qed
  from key calls apart show ?thesis by blast
qed

theorem cachingKey_is_lang_colon_path_witness:
  "httpRequest (greetCtx ''en'') = Some (greetRequest ''en'') \<and>
   path (greetRequest ''en'') \<notin> set EXCLUDED_PATHS \<and>
   cachingKey (greetRequest ''en'') = ''en:/greet/loopback'' \<and>
   fst (snd (intercept (recordingService (\<lambda>k. JUndefined)) (greetCtx ''en'') (beside_log hello)
              ([], boot))) =
     [GetCall ''en:/greet/loopback'', SetCall ''en:/greet/loopback'' (helloAt 1000)] \<and>
   path (greetRequest ''zh'') = path (greetRequest ''en'') \<and>
   lang (greetRequest ''zh'') \<noteq> lang (greetRequest ''en'') \<and>
   cachingKey (greetRequest ''zh'') \<noteq> cachingKey (greetRequest ''en'') \<and>
   fst (get (cachingKey (greetRequest ''zh'')) 1000
          (set_entry (cachingKey (greetRequest ''en'')) (helloAt 1000) 1000 emptyStore)) = None"
proof -
  have h: "httpRequest (greetCtx ''en'') = Some (greetRequest ''en'')"
    by (simp add: greetCtx_def)
  have p: "path (greetRequest ''en'') \<notin> set EXCLUDED_PATHS"
    by (simp add: greetRequest_def EXCLUDED_PATHS_def)
  have l: "lang (greetRequest ''en'') = ''en''" "lang (greetRequest ''zh'') = ''zh''"
    "path (greetRequest ''en'') = ''/greet/loopback''"
    "path (greetRequest ''zh'') = ''/greet/loopback''"
    by (simp_all add: greetRequest_def lang_def)
  have run: "hello boot = (Inr (helloAt 1000), boot)"
    by (simp add: input_defs greet_def)
  have e: "fst (get (cachingKey (greetRequest ''zh'')) 1000 emptyStore) = None"
    by (simp add: get_def emptyStore_def)
  note T = cachingKey_is_lang_colon_path [OF h p, where answer = "\<lambda>k. JUndefined"
      and handler = hello and w = boot and now = 1000 and v = "helloAt 1000" and t = 1000
      and st = emptyStore]
  from T l run have calls:
    "cachingKey (greetRequest ''en'') = ''en:/greet/loopback'' \<and>
     fst (snd (intercept (recordingService (\<lambda>k. JUndefined)) (greetCtx ''en'') (beside_log hello)
              ([], boot))) =
     [GetCall ''en:/greet/loopback'', SetCall ''en:/greet/loopback'' (helloAt 1000)]"
    by simp
  have d: "path (greetRequest ''zh'') = path (greetRequest ''en'') \<and>
           lang (greetRequest ''zh'') \<noteq> lang (greetRequest ''en'')"
    by (simp add: l)
  with T have apart:
    "cachingKey (greetRequest ''zh'') \<noteq> cachingKey (greetRequest ''en'') \<and>
     fst (get (cachingKey (greetRequest ''zh'')) 1000
            (set_entry (cachingKey (greetRequest ''en'')) (helloAt 1000) 1000 emptyStore)) =
       fst (get (cachingKey (greetRequest ''zh'')) 1000 emptyStore)"
    by blast
  from calls apart d h p show ?thesis by (simp add: e)
qed

text \<open>
  Claim C5, as the code has it. The language tag of the key is the value of the
  request's \<open>accept-language\<close> header itself, whatever it is, and \<open>en\<close> when the
  header is absent or empty; the interceptor's lookup uses the key built from that tag.
  The claim as stated (\<open>en\<close> for an unrecognized value too) fails: the header
  \<open>de\<close>, which is none of the application's languages, gives the key
  \<open>de:/greet/loopback\<close>.
\<close>

theorem lang_is_header_or_en:
  "cachingKey r = lang r @ '':'' @ path r \<and>
   (map_of (headers r) ''accept-language'' = None \<longrightarrow> lang r = ''en'') \<and>
   (map_of (headers r) ''accept-language'' = Some [] \<longrightarrow> lang r = ''en'') \<and>
   (\<forall>h. map_of (headers r) ''accept-language'' = Some h \<and> h \<noteq> [] \<longrightarrow> lang r = h) \<and>
   (httpRequest ctx = Some r \<and> path r \<notin> set EXCLUDED_PATHS \<longrightarrow>
      hd (fst (snd (intercept (recordingService answer) ctx (beside_log handler) ([], w)))) =
        GetCall (lang r @ '':'' @ path r))"
proof -
  have "hd (fst (snd (intercept (recordingService answer) ctx (beside_log handler) ([], w)))) =
        GetCall (lang r @ '':'' @ path r)"
    if "httpRequest ctx = Some r \<and> path r \<notin> set EXCLUDED_PATHS"
    using that
    by (simp add: intercept_cached cachingKey_def recordingService_def beside_log_def
             split: prod.splits sum.splits)
  then show ?thesis
    by (simp add: cachingKey_def lang_def)
qed

theorem lang_is_header_or_en_witness:
  "map_of (headers plainRequest) ''accept-language'' = None \<and>
   lang plainRequest = ''en'' \<and>
   map_of (headers (greetRequest ''zh'')) ''accept-language'' = Some ''zh'' \<and>
   lang (greetRequest ''zh'') = ''zh'' \<and>
   map_of (headers (greetRequest [])) ''accept-language'' = Some [] \<and>
   lang (greetRequest []) = ''en'' \<and>
   httpRequest (greetCtx ''zh'') = Some (greetRequest ''zh'') \<and>
   path (greetRequest ''zh'') \<notin> set EXCLUDED_PATHS \<and>
   hd (fst (snd (intercept (recordingService (\<lambda>k. JUndefined)) (greetCtx ''zh'') (beside_log hello)
                  ([], boot)))) = GetCall ''zh:/greet/loopback''"
proof -
  have a: "map_of (headers plainRequest) ''accept-language'' = None"
    by (simp add: plainRequest_def)
  have b: "map_of (headers (greetRequest ''zh'')) ''accept-language'' = Some ''zh''"
    "map_of (headers (greetRequest [])) ''accept-language'' = Some []"
    by (simp_all add: greetRequest_def)
  have h: "httpRequest (greetCtx ''zh'') = Some (greetRequest ''zh'')"
    by (simp add: greetCtx_def)
  have p: "path (greetRequest ''zh'') \<notin> set EXCLUDED_PATHS"
    "path (greetRequest ''zh'') = ''/greet/loopback''"
    by (simp_all add: greetRequest_def EXCLUDED_PATHS_def)
  from lang_is_header_or_en [of plainRequest "greetCtx ''zh''" "\<lambda>k. JUndefined" hello boot]
    lang_is_header_or_en [of "greetRequest []" "greetCtx ''zh''" "\<lambda>k. JUndefined" hello boot]
    lang_is_header_or_en [of "greetRequest ''zh''" "greetCtx ''zh''" "\<lambda>k. JUndefined" hello boot]
  show ?thesis using a b h p by simp
qed

theorem lang_unrecognized_not_en:
  "map_of (headers (greetRequest ''de'')) ''accept-language'' = Some ''de'' \<and>
   ''de'' \<notin> set [''en'', ''zh'', ''fr''] \<and>
   lang (greetRequest ''de'') \<noteq> ''en'' \<and>
   cachingKey (greetRequest ''de'') = ''de:/greet/loopback'' \<and>
   fst (snd (intercept (recordingService (\<lambda>k. JUndefined)) (greetCtx ''de'') (beside_log hello)
              ([], boot))) =
     [GetCall ''de:/greet/loopback'', SetCall ''de:/greet/loopback'' (helloAt 1000)]"
  by (simp add: input_defs run_defs)

text \<open>
  Claim C9. Where the store holds a live entry under the derived key whose value is
  falsy (\<open>null\<close>, \<open>undefined\<close>, \<open>0\<close>, the empty string, \<open>false\<close>), the
  interceptor goes on as on a miss: it invokes the handler, and stores and returns the
  handler's result.
\<close>

theorem falsy_cached_value_is_miss:
  assumes "httpRequest ctx = Some r" and "path r \<notin> set EXCLUDED_PATHS"
    and "map_of (entries (cache s)) (cachingKey r) = Some e"
    and "live (clock s) e" and "\<not> truthy (entryValue e)"
  shows "intercept cachingService ctx nxt s =
       (case nxt s of
          (Inl err, s2) \<Rightarrow> (Inl err, s2)
        | (Inr result, s2) \<Rightarrow>
            (Inr result, s2\<lparr>cache := set_entry (cachingKey r) result (clock s2) (cache s2)\<rparr>)) \<and>
     \<not> truthy JNull \<and> \<not> truthy JUndefined \<and> \<not> truthy (JNum 0) \<and> \<not> truthy (JStr [])
       \<and> \<not> truthy (JBool False)"
  using assms
  by (simp add: intercept_cached get_cached_cachingService set_cached_cachingService get_live
           split: prod.splits sum.splits)

theorem falsy_cached_value_is_miss_witness:
  "httpRequest (greetCtx ''en'') = Some (greetRequest ''en'') \<and>
   path (greetRequest ''en'') \<notin> set EXCLUDED_PATHS \<and>
   map_of (entries (cache (holding ''en:/greet/loopback'' (JNum 0) 2000))) (cachingKey (greetRequest ''en'')) =
     Some (storedAt1000 (JNum 0)) \<and>
   live (clock (holding ''en:/greet/loopback'' (JNum 0) 2000)) (storedAt1000 (JNum 0)) \<and>
   \<not> truthy (entryValue (storedAt1000 (JNum 0))) \<and>
   fst (intercept cachingService (greetCtx ''en'') hello (holding ''en:/greet/loopback'' (JNum 0) 2000)) =
     Inr (helloAt 2000)"
proof -
  have h: "httpRequest (greetCtx ''en'') = Some (greetRequest ''en'')"
    by (simp add: greetCtx_def)
  have p: "path (greetRequest ''en'') \<notin> set EXCLUDED_PATHS"
    by (simp add: greetRequest_def EXCLUDED_PATHS_def)
  have m: "map_of (entries (cache (holding ''en:/greet/loopback'' (JNum 0) 2000))) (cachingKey (greetRequest ''en'')) =
     Some (storedAt1000 (JNum 0))"
    by (simp add: holding_def greetRequest_def cachingKey_def lang_def)
  have l: "live (clock (holding ''en:/greet/loopback'' (JNum 0) 2000)) (storedAt1000 (JNum 0))"
    by (simp add: holding_def storedAt1000_def live_def)
  have f: "\<not> truthy (entryValue (storedAt1000 (JNum 0)))"
    by (simp add: storedAt1000_def)
  have run: "hello (holding ''en:/greet/loopback'' (JNum 0) 2000) = (Inr (helloAt 2000), holding ''en:/greet/loopback'' (JNum 0) 2000)"
    by (simp add: input_defs greet_def)
  from falsy_cached_value_is_miss [OF h p m l f, of hello]
  show ?thesis using h p m l f run by simp
qed

text \<open>
  Claim C1, as the code has it. For a request that is not excluded: where the store
  holds a live entry under the derived key whose value is truthy, the interceptor
  returns that value and leaves the state as it was, whatever \<open>next\<close> is, so the
  handler is not invoked; where the store holds no live entry under the key and the
  handler returns a result, the interceptor returns that result and the store then holds
  it under the key. The claim as stated fails for a live entry whose value is falsy: the
  handler runs although the entry is live.
\<close>

theorem cache_aside_hit_and_miss:
  assumes "httpRequest ctx = Some r" and "path r \<notin> set EXCLUDED_PATHS"
  shows "(\<forall>e. map_of (entries (cache s)) (cachingKey r) = Some e \<and> live (clock s) e
            \<and> truthy (entryValue e) \<longrightarrow>
          intercept cachingService ctx nxt s = (Inr (entryValue e), s)) \<and>
     ((\<forall>e. map_of (entries (cache s)) (cachingKey r) = Some e \<longrightarrow> \<not> live (clock s) e) \<longrightarrow>
        (\<forall>result s2.
           nxt (s\<lparr>cache := snd (get (cachingKey r) (clock s) (cache s))\<rparr>) = (Inr result, s2) \<longrightarrow>
           intercept cachingService ctx nxt s =
             (Inr result, s2\<lparr>cache := set_entry (cachingKey r) result (clock s2) (cache s2)\<rparr>) \<and>
           map_of (entries (cache (snd (intercept cachingService ctx nxt s)))) (cachingKey r) =
             Some \<lparr>entryValue = result, createdAt = clock s2,
                   expiresAt = clock s2 + ttl (cache s2)\<rparr>))"
proof -
  have hit: "intercept cachingService ctx nxt s = (Inr (entryValue e), s)"
    if "map_of (entries (cache s)) (cachingKey r) = Some e \<and> live (clock s) e
          \<and> truthy (entryValue e)" for e
    using assms that
    by (simp add: intercept_cached get_cached_cachingService get_live)
  have miss: "intercept cachingService ctx nxt s =
             (Inr result, s2\<lparr>cache := set_entry (cachingKey r) result (clock s2) (cache s2)\<rparr>) \<and>
           map_of (entries (cache (snd (intercept cachingService ctx nxt s)))) (cachingKey r) =
             Some \<lparr>entryValue = result, createdAt = clock s2,
                   expiresAt = clock s2 + ttl (cache s2)\<rparr>"
    if none: "\<forall>e. map_of (entries (cache s)) (cachingKey r) = Some e \<longrightarrow> \<not> live (clock s) e"
      and nxt: "nxt (s\<lparr>cache := snd (get (cachingKey r) (clock s) (cache s))\<rparr>) = (Inr result, s2)"
    for result s2
  proof -
    from none have "fst (get (cachingKey r) (clock s) (cache s)) = None"
      by (simp add: fst_get split: option.splits)
    with nxt assms show ?thesis
      by (simp add: intercept_cached get_cached_cachingService set_cached_cachingService
               map_of_set_entry)
  qed
  from hit miss show ?thesis by blast
qed

theorem cache_aside_hit_and_miss_witness:
  "httpRequest (greetCtx ''en'') = Some (greetRequest ''en'') \<and>
   path (greetRequest ''en'') \<notin> set EXCLUDED_PATHS \<and>
   map_of (entries (cache (holding ''en:/greet/loopback'' (helloAt 1000) 6000)))
       (cachingKey (greetRequest ''en'')) = Some (storedAt1000 (helloAt 1000)) \<and>
   live (clock (holding ''en:/greet/loopback'' (helloAt 1000) 6000)) (storedAt1000 (helloAt 1000)) \<and>
   truthy (entryValue (storedAt1000 (helloAt 1000))) \<and>
   intercept cachingService (greetCtx ''en'') hello (holding ''en:/greet/loopback'' (helloAt 1000) 6000) =
     (Inr (helloAt 1000), holding ''en:/greet/loopback'' (helloAt 1000) 6000) \<and>
   hello (holding ''en:/greet/loopback'' (helloAt 1000) 6000) =
     (Inr (helloAt 6000), holding ''en:/greet/loopback'' (helloAt 1000) 6000) \<and>
   intercept cachingService (greetCtx ''en'') hello (holding ''en:/greet/loopback'' (helloAt 1000) 12000) =
     (Inr (helloAt 12000),
      \<lparr>clock = 12000,
       cache = \<lparr>ttl = 10000,
                entries = [(''en:/greet/loopback'',
                            \<lparr>entryValue = helloAt 12000, createdAt = 12000,
                             expiresAt = 22000\<rparr>)]\<rparr>\<rparr>) \<and>
   helloAt 12000 \<noteq> helloAt 1000"
proof -
  let ?s6 = "holding ''en:/greet/loopback'' (helloAt 1000) 6000"
  let ?s12 = "holding ''en:/greet/loopback'' (helloAt 1000) 12000"
  have h: "httpRequest (greetCtx ''en'') = Some (greetRequest ''en'')"
    by (simp add: greetCtx_def)
  have p: "path (greetRequest ''en'') \<notin> set EXCLUDED_PATHS"
    by (simp add: greetRequest_def EXCLUDED_PATHS_def)
  have k: "cachingKey (greetRequest ''en'') = ''en:/greet/loopback''"
    by (simp add: greetRequest_def cachingKey_def lang_def)
  have m: "map_of (entries (cache ?s6)) (cachingKey (greetRequest ''en'')) =
             Some (storedAt1000 (helloAt 1000))
           \<and> live (clock ?s6) (storedAt1000 (helloAt 1000))
           \<and> truthy (entryValue (storedAt1000 (helloAt 1000)))"
    by (simp add: k holding_def storedAt1000_def live_def helloAt_def)
  have fresh: "hello ?s6 = (Inr (helloAt 6000), ?s6)"
    by (simp add: input_defs greet_def)
  have stale: "\<forall>e. map_of (entries (cache ?s12)) (cachingKey (greetRequest ''en'')) = Some e \<longrightarrow>
                 \<not> live (clock ?s12) e"
    by (simp add: k holding_def storedAt1000_def live_def)
  have run: "hello (?s12\<lparr>cache := snd (get (cachingKey (greetRequest ''en'')) (clock ?s12) (cache ?s12))\<rparr>) =
               (Inr (helloAt 12000), \<lparr>clock = 12000, cache = \<lparr>ttl = 10000, entries = []\<rparr>\<rparr>)"
    by (simp add: k holding_def storedAt1000_def hello_def helloAt_def greet_def get_def)
  from cache_aside_hit_and_miss [OF h p, where s = ?s6 and nxt = hello] m
  have hit: "intercept cachingService (greetCtx ''en'') hello ?s6 = (Inr (helloAt 1000), ?s6)"
    by (simp add: storedAt1000_def)
  from cache_aside_hit_and_miss [OF h p, where s = ?s12 and nxt = hello] stale run
  have "intercept cachingService (greetCtx ''en'') hello ?s12 =
          (Inr (helloAt 12000),
           \<lparr>clock = 12000, cache = \<lparr>ttl = 10000, entries = []\<rparr>\<rparr>
             \<lparr>cache := set_entry (cachingKey (greetRequest ''en'')) (helloAt 12000)
                 (clock \<lparr>clock = 12000, cache = \<lparr>ttl = 10000, entries = []\<rparr>\<rparr>)
                 (cache \<lparr>clock = 12000, cache = \<lparr>ttl = 10000, entries = []\<rparr>\<rparr>)\<rparr>)"
    by blast
  then have miss: "intercept cachingService (greetCtx ''en'') hello ?s12 =
     (Inr (helloAt 12000),
      \<lparr>clock = 12000,
       cache = \<lparr>ttl = 10000,
                entries = [(''en:/greet/loopback'',
                            \<lparr>entryValue = helloAt 12000, createdAt = 12000,
                             expiresAt = 22000\<rparr>)]\<rparr>\<rparr>)"
    by (simp add: k set_entry_def)
  have diff: "helloAt 12000 \<noteq> helloAt 1000"
    by (simp add: helloAt_def)
  from h p m hit fresh miss diff show ?thesis by blast
qed

theorem live_falsy_entry_not_returned:
  "httpRequest (greetCtx ''en'') = Some (greetRequest ''en'') \<and>
   path (greetRequest ''en'') \<notin> set EXCLUDED_PATHS \<and>
   map_of (entries (cache (holding ''en:/greet/loopback'' (JNum 0) 2000)))
       (cachingKey (greetRequest ''en'')) = Some (storedAt1000 (JNum 0)) \<and>
   live (clock (holding ''en:/greet/loopback'' (JNum 0) 2000)) (storedAt1000 (JNum 0)) \<and>
   fst (intercept cachingService (greetCtx ''en'') hello (holding ''en:/greet/loopback'' (JNum 0) 2000))
     \<noteq> Inr (entryValue (storedAt1000 (JNum 0))) \<and>
   intercept cachingService (greetCtx ''en'') hello (holding ''en:/greet/loopback'' (JNum 0) 2000) =
     (Inr (helloAt 2000),
      \<lparr>clock = 2000,
       cache = \<lparr>ttl = 10000,
                entries = [(''en:/greet/loopback'',
                            \<lparr>entryValue = helloAt 2000, createdAt = 2000,
                             expiresAt = 12000\<rparr>)]\<rparr>\<rparr>)"
  by (simp add: input_defs run_defs)

text \<open>
  Claim C6, as the code and the store have it. For a request that is not excluded,
  where the lookup misses and the handler fails, the interceptor returns that failure
  with the state the handler left, for any service: the handler ran once and \<open>set\<close>
  was not applied. With the store of the specification and a handler that does not touch
  the store, the store afterwards is the store the lookup left: the store as it was,
  less a stale entry under the derived key. The claim as stated (the store exactly as
  before) fails where such a stale entry was present, because \<open>get\<close> removes it.
\<close>

theorem handler_failure_not_cached:
  assumes "httpRequest ctx = Some r" and "path r \<notin> set EXCLUDED_PATHS"
  shows "(\<forall>c s1 s2. get_cached svc (cachingKey r) s = (c, s1) \<and> \<not> truthy c
              \<and> nxt s1 = (Inl e, s2) \<longrightarrow>
            intercept svc ctx nxt s = (Inl e, s2)) \<and>
     (\<forall>sys2. \<not> truthy (fst (get_cached cachingService (cachingKey r) sys))
              \<and> handler (snd (get_cached cachingService (cachingKey r) sys)) = (Inl e, sys2)
              \<and> cache sys2 = cache (snd (get_cached cachingService (cachingKey r) sys)) \<longrightarrow>
            intercept cachingService ctx handler sys = (Inl e, sys2) \<and>
            cache sys2 =
              (case map_of (entries (cache sys)) (cachingKey r) of
                 None \<Rightarrow> cache sys
               | Some e' \<Rightarrow>
                   if live (clock sys) e' then cache sys
                   else (cache sys)\<lparr>entries := AList.delete (cachingKey r) (entries (cache sys))\<rparr>))"
proof -
  have generic: "intercept svc' ctx next' s' = (Inl e, s2)"
    if "get_cached svc' (cachingKey r) s' = (c, s1) \<and> \<not> truthy c \<and> next' s1 = (Inl e, s2)"
    for svc' :: "'b CachingService" and next' s' c s1 s2
    using assms that by (simp add: intercept_cached)
  have sys: "intercept cachingService ctx handler sys = (Inl e, sys2) \<and>
            cache sys2 =
              (case map_of (entries (cache sys)) (cachingKey r) of
                 None \<Rightarrow> cache sys
               | Some e' \<Rightarrow>
                   if live (clock sys) e' then cache sys
                   else (cache sys)\<lparr>entries := AList.delete (cachingKey r) (entries (cache sys))\<rparr>)"
    if h: "\<not> truthy (fst (get_cached cachingService (cachingKey r) sys))
              \<and> handler (snd (get_cached cachingService (cachingKey r) sys)) = (Inl e, sys2)
              \<and> cache sys2 = cache (snd (get_cached cachingService (cachingKey r) sys))"
    for sys2
  proof -
    obtain c s1 where g: "get_cached cachingService (cachingKey r) sys = (c, s1)"
      by (cases "get_cached cachingService (cachingKey r) sys")
    with h have "intercept cachingService ctx handler sys = (Inl e, sys2)"
      using generic [of cachingService sys c s1 handler sys2] by simp
    moreover from h have "cache sys2 = snd (get (cachingKey r) (clock sys) (cache sys))"
      by (simp add: get_cached_cachingService)
    ultimately show ?thesis
      by (simp add: snd_get)
  qed
  from generic [of svc s _ _ "nxt"] sys show ?thesis by blast
qed

theorem handler_failure_not_cached_witness:
  "httpRequest (greetCtx ''en'') = Some (greetRequest ''en'') \<and>
   path (greetRequest ''en'') \<notin> set EXCLUDED_PATHS \<and>
   intercept (recordingService (\<lambda>k. JUndefined)) (greetCtx ''en'')
       (beside_log (\<lambda>n::nat. (Inl boom, Suc n))) ([], 0) =
     (Inl boom, ([GetCall ''en:/greet/loopback''], 1)) \<and>
   intercept cachingService (greetCtx ''en'') (failing boom) boot = (Inl boom, boot) \<and>
   cache (snd (intercept cachingService (greetCtx ''en'') (failing boom) boot)) = cache boot"
proof -
  have h: "httpRequest (greetCtx ''en'') = Some (greetRequest ''en'')"
    by (simp add: greetCtx_def)
  have p: "path (greetRequest ''en'') \<notin> set EXCLUDED_PATHS"
    by (simp add: greetRequest_def EXCLUDED_PATHS_def)
  have k: "cachingKey (greetRequest ''en'') = ''en:/greet/loopback''"
    by (simp add: greetRequest_def cachingKey_def lang_def)
  note T = handler_failure_not_cached [OF h p,
      where svc = "recordingService (\<lambda>k. JUndefined) :: (cache_call list \<times> nat) CachingService"
        and s = "([], 0)" and nxt = "beside_log (\<lambda>n::nat. (Inl boom, Suc n))" and e = boom
        and sys = boot and handler = "failing boom"]
  have g: "get_cached (recordingService (\<lambda>k. JUndefined) :: (cache_call list \<times> nat) CachingService)
             (cachingKey (greetRequest ''en'')) ([], 0) = (JUndefined, ([GetCall ''en:/greet/loopback''], 0))
           \<and> \<not> truthy JUndefined
           \<and> beside_log (\<lambda>n::nat. (Inl boom, Suc n)) ([GetCall ''en:/greet/loopback''], 0) =
               (Inl boom, ([GetCall ''en:/greet/loopback''], 1))"
    by (simp add: k recordingService_def beside_log_def)
  with T have logged: "intercept (recordingService (\<lambda>k. JUndefined)) (greetCtx ''en'')
       (beside_log (\<lambda>n::nat. (Inl boom, Suc n))) ([], 0) =
     (Inl boom, ([GetCall ''en:/greet/loopback''], 1))"
    by blast
  have b: "\<not> truthy (fst (get_cached cachingService (cachingKey (greetRequest ''en'')) boot))
           \<and> failing boom (snd (get_cached cachingService (cachingKey (greetRequest ''en'')) boot)) =
               (Inl boom, boot)
           \<and> cache boot = cache (snd (get_cached cachingService (cachingKey (greetRequest ''en'')) boot))"
    by (simp add: k boot_def emptyStore_def cachingService_def get_def failing_def)
  with T have "intercept cachingService (greetCtx ''en'') (failing boom) boot = (Inl boom, boot)"
    by blast
  with h p logged show ?thesis by simp
qed

theorem handler_failure_after_stale_entry:
  "httpRequest (greetCtx ''en'') = Some (greetRequest ''en'') \<and>
   path (greetRequest ''en'') \<notin> set EXCLUDED_PATHS \<and>
   intercept cachingService (greetCtx ''en'') (failing boom)
       (holding ''en:/greet/loopback'' (helloAt 1000) 12000) =
     (Inl boom, \<lparr>clock = 12000, cache = \<lparr>ttl = 10000, entries = []\<rparr>\<rparr>) \<and>
   cache (snd (intercept cachingService (greetCtx ''en'') (failing boom)
                 (holding ''en:/greet/loopback'' (helloAt 1000) 12000)))
     \<noteq> cache (holding ''en:/greet/loopback'' (helloAt 1000) 12000)"
  by (simp add: input_defs run_defs)

section \<open>The store\<close>

text \<open>
  Claim C7. A \<open>set(k, v)\<close> followed by \<open>get(k)\<close> before the TTL has elapsed
  returns exactly \<open>v\<close> and leaves the store as \<open>set\<close> left it. \<open>get\<close> has a
  value for every key, time and store, and that value is the stored value of a live
  entry or miss: there is no other outcome.
\<close>

theorem set_then_get:
  "(now' < now + ttl st \<longrightarrow>
      get k now' (set_entry k v now st) = (Some v, set_entry k v now st)) \<and>
   fst (get k now st) =
     (case map_of (entries st) k of
        None \<Rightarrow> None
      | Some e \<Rightarrow> if now < expiresAt e then Some (entryValue e) else None)"
  by (simp add: get_def map_of_set_entry split: option.splits)

theorem set_then_get_witness:
  "(1000::int) < 1000 + ttl emptyStore \<and>
   get ''en:/greet/loopback'' 1000 (set_entry ''en:/greet/loopback'' (helloAt 1000) 1000 emptyStore) =
     (Some (helloAt 1000), set_entry ''en:/greet/loopback'' (helloAt 1000) 1000 emptyStore) \<and>
   fst (get ''fr:/greet/loopback'' 1000 emptyStore) = None"
proof -
  have t: "(1000::int) < 1000 + ttl emptyStore"
    by (simp add: emptyStore_def)
  from set_then_get [where now' = 1000 and now = 1000 and st = emptyStore
      and k = "''en:/greet/loopback''" and v = "helloAt 1000"] t
  have a: "get ''en:/greet/loopback'' 1000
             (set_entry ''en:/greet/loopback'' (helloAt 1000) 1000 emptyStore) =
           (Some (helloAt 1000), set_entry ''en:/greet/loopback'' (helloAt 1000) 1000 emptyStore)"
    by blast
  have b: "fst (get ''fr:/greet/loopback'' 1000 emptyStore) = None"
    by (simp add: get_def emptyStore_def)
  from t a b show ?thesis by blast
qed

text \<open>
  Claim C2. A \<open>get(k)\<close> at a time \<open>now >= expiresAt\<close> of the entry stored under
  \<open>k\<close>, so at any time at which the TTL has elapsed since the \<open>set(k, _)\<close> that
  stored it, returns miss without any sweep, and removes the entry from the store,
  leaving every other key as it was. Whatever \<open>get\<close> returns is the value of an entry
  that is live.
\<close>

theorem get_expired_is_miss:
  "(\<forall>e. map_of (entries st) k = Some e \<and> expiresAt e \<le> now \<longrightarrow>
        fst (get k now st) = None \<and>
        k \<notin> fst ` set (entries (snd (get k now st))) \<and>
        (\<forall>k'. k' \<noteq> k \<longrightarrow> map_of (entries (snd (get k now st))) k' = map_of (entries st) k')) \<and>
   (t + ttl st \<le> now \<longrightarrow>
        fst (get k now (set_entry k v t st)) = None \<and>
        k \<notin> fst ` set (entries (snd (get k now (set_entry k v t st))))) \<and>
   (\<forall>x. fst (get k now st) = Some x \<longrightarrow>
        (\<exists>e. map_of (entries st) k = Some e \<and> now < expiresAt e \<and> entryValue e = x))"
proof -
  have stale: "fst (get k now st') = None \<and>
        k \<notin> fst ` set (entries (snd (get k now st'))) \<and>
        (\<forall>k'. k' \<noteq> k \<longrightarrow> map_of (entries (snd (get k now st'))) k' = map_of (entries st') k')"
    if "map_of (entries st') k = Some e \<and> expiresAt e \<le> now" for e st'
    using that by (simp add: get_def delete_notin_dom)
  have after_set: "fst (get k now (set_entry k v t st)) = None \<and>
        k \<notin> fst ` set (entries (snd (get k now (set_entry k v t st))))"
    if "t + ttl st \<le> now"
    using that
      stale [of "set_entry k v t st" "\<lparr>entryValue = v, createdAt = t, expiresAt = t + ttl st\<rparr>"]
    by (simp add: map_of_set_entry)
  have live_only: "\<exists>e. map_of (entries st) k = Some e \<and> now < expiresAt e \<and> entryValue e = x"
    if "fst (get k now st) = Some x" for x
    using that by (auto simp: fst_get live_def split: option.splits if_splits)
  from stale [of st] after_set live_only show ?thesis by blast
qed

theorem get_expired_is_miss_witness:
  "map_of (entries twoEntries) ''en:/greet/loopback'' = Some (storedAt1000 (helloAt 1000)) \<and>
   expiresAt (storedAt1000 (helloAt 1000)) \<le> 11000 \<and>
   fst (get ''en:/greet/loopback'' 11000 twoEntries) = None \<and>
   ''en:/greet/loopback'' \<notin> fst ` set (entries (snd (get ''en:/greet/loopback'' 11000 twoEntries))) \<and>
   map_of (entries (snd (get ''en:/greet/loopback'' 11000 twoEntries))) ''zh:/greet/loopback'' =
     map_of (entries twoEntries) ''zh:/greet/loopback'' \<and>
   (1000::int) + ttl emptyStore \<le> 11000 \<and>
   fst (get ''en:/greet/loopback'' 11000
          (set_entry ''en:/greet/loopback'' (helloAt 1000) 1000 emptyStore)) = None"
proof -
  have m: "map_of (entries twoEntries) ''en:/greet/loopback'' = Some (storedAt1000 (helloAt 1000))
           \<and> expiresAt (storedAt1000 (helloAt 1000)) \<le> 11000"
    by (simp add: twoEntries_def storedAt1000_def)
  have d: "''zh:/greet/loopback'' \<noteq> ''en:/greet/loopback''"
    by simp
  note T = get_expired_is_miss [where st = twoEntries and k = "''en:/greet/loopback''"
      and now = 11000]
  note a = T [THEN conjunct1, THEN spec, of "storedAt1000 (helloAt 1000)", THEN mp, OF m]
  note b = a [THEN conjunct2, THEN conjunct2, THEN spec, THEN mp, OF d]
  have t: "(1000::int) + ttl emptyStore \<le> 11000"
    by (simp add: emptyStore_def)
  note c = get_expired_is_miss [where st = emptyStore and k = "''en:/greet/loopback''"
      and now = 11000 and t = 1000 and v = "helloAt 1000",
      THEN conjunct2, THEN conjunct1, THEN mp, OF t, THEN conjunct1]
  show ?thesis
    using m a [THEN conjunct1] a [THEN conjunct2, THEN conjunct1] b t c
    by (elim conjE) (intro conjI; assumption)
qed

text \<open>
  Claim C8. \<open>sweepOnce()\<close> returns the keys of exactly the entries whose
  \<open>expiresAt\<close> is at or before the time of the call; the store it leaves holds no such
  entry, holds every entry that was live at that time, and holds nothing new.
\<close>

theorem sweepOnce_removes_expired:
  assumes "sweepOnce now st = (removedKeys, st')"
  shows "set removedKeys = {k. \<exists>e. (k, e) \<in> set (entries st) \<and> expiresAt e \<le> now} \<and>
     (\<forall>(k, e) \<in> set (entries st'). \<not> expiresAt e \<le> now) \<and>
     (\<forall>(k, e) \<in> set (entries st). now < expiresAt e \<longrightarrow> (k, e) \<in> set (entries st')) \<and>
     set (entries st') \<subseteq> set (entries st) \<and>
     ttl st' = ttl st"
proof -
  from assms have keys: "removedKeys = map fst (filter (\<lambda>(k, e). expiresAt e \<le> now) (entries st))"
    and rest: "entries st' = filter (\<lambda>(k, e). \<not> expiresAt e \<le> now) (entries st)"
    and same: "ttl st' = ttl st"
    by (auto simp: sweepOnce_def)
  have "set removedKeys = {k. \<exists>e. (k, e) \<in> set (entries st) \<and> expiresAt e \<le> now}"
    unfolding keys by force
  moreover have "\<forall>(k, e) \<in> set (entries st'). \<not> expiresAt e \<le> now"
    unfolding rest by auto
  moreover have "\<forall>(k, e) \<in> set (entries st). now < expiresAt e \<longrightarrow> (k, e) \<in> set (entries st')"
    unfolding rest by auto
  moreover have "set (entries st') \<subseteq> set (entries st)"
    unfolding rest by auto
  ultimately show ?thesis using same by blast
qed

theorem sweepOnce_removes_expired_witness:
  "sweepOnce 11000 twoEntries =
     ([''en:/greet/loopback''],
      \<lparr>ttl = 10000,
       entries = [(''zh:/greet/loopback'',
                   \<lparr>entryValue = JStr ''ni hao'', createdAt = 5000, expiresAt = 15000\<rparr>)]\<rparr>) \<and>
   set [''en:/greet/loopback''] =
     {k. \<exists>e. (k, e) \<in> set (entries twoEntries) \<and> expiresAt e \<le> 11000} \<and>
   map_of (entries (snd (sweepOnce 11000 twoEntries))) ''en:/greet/loopback'' = None \<and>
   map_of (entries (snd (sweepOnce 11000 twoEntries))) ''zh:/greet/loopback'' =
     map_of (entries twoEntries) ''zh:/greet/loopback''"
proof -
  have run: "sweepOnce 11000 twoEntries =
     ([''en:/greet/loopback''],
      \<lparr>ttl = 10000,
       entries = [(''zh:/greet/loopback'',
                   \<lparr>entryValue = JStr ''ni hao'', createdAt = 5000, expiresAt = 15000\<rparr>)]\<rparr>)"
    by (simp add: sweepOnce_def twoEntries_def storedAt1000_def)
  from sweepOnce_removes_expired [OF run]
  have keys: "set [''en:/greet/loopback''] =
     {k. \<exists>e. (k, e) \<in> set (entries twoEntries) \<and> expiresAt e \<le> 11000}"
    by (rule conjunct1)
  have rest: "map_of (entries (snd (sweepOnce 11000 twoEntries))) ''en:/greet/loopback'' = None \<and>
    map_of (entries (snd (sweepOnce 11000 twoEntries))) ''zh:/greet/loopback'' =
      map_of (entries twoEntries) ''zh:/greet/loopback''"
    by (simp add: run) (simp add: twoEntries_def)
  from run keys rest show ?thesis by blast
qed

end
